theory Spec2Isabelle
  imports Complex_Main
begin

section \<open>The JavaScript built-ins that \<open>parseHarvestOrder\<close> calls\<close>

text \<open>
  A JavaScript string is a sequence of UTF-16 code units; a code unit is modelled as a
  natural number. \<open>utf16\<close> embeds an ASCII literal.
\<close>

type_synonym jsstring = "nat list"

definition utf16 :: "string \<Rightarrow> jsstring" where
  "utf16 s = map of_char s"

text \<open>
  The characters of the WhiteSpace and LineTerminator productions of ECMAScript: TAB, LF,
  VT, FF, CR, SP, NBSP, U+1680, U+2000..U+200A, U+2028, U+2029, U+202F, U+205F, U+3000
  and U+FEFF. The regular-expression class \<open>\s\<close> and the trimming done by
  \<open>Number\<close> both use this set.
\<close>

definition is_white :: "nat \<Rightarrow> bool" where
  "is_white c \<longleftrightarrow>
     c = 9 \<or> c = 10 \<or> c = 11 \<or> c = 12 \<or> c = 13 \<or> c = 32 \<or> c = 160 \<or> c = 5760 \<or>
     (8192 \<le> c \<and> c \<le> 8202) \<or> c = 8232 \<or> c = 8233 \<or> c = 8239 \<or> c = 8287 \<or>
     c = 12288 \<or> c = 65279"

text \<open>The separator class \<open>[,\s]\<close> of the regular expression in \<open>parseHarvestOrder\<close>.\<close>

definition is_sep :: "nat \<Rightarrow> bool" where
  "is_sep c \<longleftrightarrow> c = 44 \<or> is_white c"

text \<open>
  \<open>value.split(/[,\s]+/)\<close> on a string: the tokens are the maximal runs of
  non-separator code units; a separator run at the very start or the very end of the string
  gives an empty first or last token. \<open>cur\<close> is the token being collected.
\<close>

function js_split :: "jsstring \<Rightarrow> jsstring \<Rightarrow> jsstring list" where
  "js_split cur [] = [cur]"
| "js_split cur (c # cs) =
     (if is_sep c then cur # js_split [] (dropWhile is_sep cs)
      else js_split (cur @ [c]) cs)"
  by pat_completeness auto
termination
  by (relation "measure (\<lambda>(cur, s). length s)")
     (auto simp: less_Suc_eq_le length_dropWhile_le)

text \<open>
  Number values: NaN, the two infinities, and the finite doubles, each given by the rational
  it denotes (so \<open>-0\<close> and \<open>+0\<close> are one value here; nothing below tells them
  apart, both fail \<open>num > 0\<close>).
\<close>

datatype jsnum = NaN | PosInf | NegInf | Fin rat

text \<open>\<open>mul2 n k\<close> is \<open>n * 2^k\<close> for \<open>k \<ge> 0\<close> and \<open>n\<close> otherwise.\<close>

definition mul2 :: "nat \<Rightarrow> int \<Rightarrow> nat" where
  "mul2 n k = n * 2 ^ nat k"

text \<open>The number of binary digits of \<open>n\<close>.\<close>

function bit_length :: "nat \<Rightarrow> nat" where
  "bit_length n = (if n = 0 then 0 else Suc (bit_length (n div 2)))"
  by pat_completeness auto
termination
  by (relation "measure id") auto

declare bit_length.simps [simp del]

text \<open>\<open>\<lfloor>log\<^sub>2 (a / b)\<rfloor>\<close> for positive \<open>a\<close>, \<open>b\<close>.\<close>

definition floor_log2 :: "nat \<Rightarrow> nat \<Rightarrow> int" where
  "floor_log2 a b =
     (let d = int (bit_length a) - int (bit_length b)
      in if mul2 a (- d) < mul2 b d then d - 1 else d)"

text \<open>
  The Number value for the non-negative rational \<open>a / b\<close>: IEEE 754 binary64,
  round to nearest, ties to even. With \<open>e\<close> the binary exponent (not below that of
  the subnormals) the significand is \<open>a / b * 2^k\<close> rounded to an integer, for
  \<open>k = 52 - e\<close>; a result of \<open>2^1024\<close> or more is \<open>+Infinity\<close>.
\<close>

definition round_double :: "nat \<Rightarrow> nat \<Rightarrow> jsnum" where
  "round_double a b =
     (if a = 0 then Fin 0
      else
        let e = max (floor_log2 a b) (- 1022);
            k = 52 - e;
            num = mul2 a k;
            den = mul2 b (- k);
            q = num div den;
            r = num mod den;
            m = (if 2 * r < den then q
                 else if den < 2 * r then q + 1
                 else if even q then q else q + 1)
        in if mul2 (2 ^ 1024) k \<le> mul2 m (- k) then PosInf
           else Fin (of_nat (mul2 m (- k)) / of_nat (mul2 1 k)))"

definition negate :: "jsnum \<Rightarrow> jsnum" where
  "negate x = (case x of NaN \<Rightarrow> NaN | PosInf \<Rightarrow> NegInf | NegInf \<Rightarrow> PosInf | Fin q \<Rightarrow> Fin (- q))"

text \<open>A whole number as a Number value.\<close>

definition num :: "int \<Rightarrow> jsnum" where
  "num z = Fin (of_int z)"

text \<open>The Number value for a rational of either sign.\<close>

definition round_rat :: "rat \<Rightarrow> jsnum" where
  "round_rat q =
     (let (n, d) = quotient_of q
      in if 0 \<le> n then round_double (nat n) (nat d)
         else negate (round_double (nat (- n)) (nat d)))"

text \<open>
  \<open>x + y\<close> and \<open>x - y\<close> on Number values: NaN is contagious, the sum of the two
  opposite infinities is NaN, an infinity absorbs every finite number, and the exact sum
  of two finite numbers is rounded.
\<close>

definition jadd :: "jsnum \<Rightarrow> jsnum \<Rightarrow> jsnum" where
  "jadd x y =
     (case (x, y) of
        (NaN, _) \<Rightarrow> NaN
      | (_, NaN) \<Rightarrow> NaN
      | (PosInf, NegInf) \<Rightarrow> NaN
      | (NegInf, PosInf) \<Rightarrow> NaN
      | (PosInf, _) \<Rightarrow> PosInf
      | (_, PosInf) \<Rightarrow> PosInf
      | (NegInf, _) \<Rightarrow> NegInf
      | (_, NegInf) \<Rightarrow> NegInf
      | (Fin a, Fin b) \<Rightarrow> round_rat (a + b))"

definition jsub :: "jsnum \<Rightarrow> jsnum \<Rightarrow> jsnum" where
  "jsub x y = jadd x (negate y)"

text \<open>\<open>x === y\<close> on Number values: NaN equals nothing.\<close>

definition strict_eq :: "jsnum \<Rightarrow> jsnum \<Rightarrow> bool" where
  "strict_eq x y \<longleftrightarrow> x \<noteq> NaN \<and> y \<noteq> NaN \<and> x = y"

text \<open>The decimal digits of a natural number.\<close>

function nat_digits :: "nat \<Rightarrow> string" where
  "nat_digits n =
     (if n < 10 then [char_of (48 + n)]
      else nat_digits (n div 10) @ [char_of (48 + n mod 10)])"
  by pat_completeness auto
termination
  by (relation "measure id") auto

declare nat_digits.simps [simp del]

text \<open>
  The conversion of a Number value to a string (Number::toString, radix 10), as a template
  literal applies it. For a positive value \<open>x = a / b\<close> it takes the integers
  \<open>n\<close>, \<open>k\<close>, \<open>s\<close> with \<open>s\<close> of \<open>k\<close> digits and
  \<open>s * 10^(n - k)\<close> rounding to \<open>x\<close>, \<open>k\<close> as small as possible and then
  \<open>s * 10^(n - k)\<close> as close to \<open>x\<close> as possible.

  \<open>dec_exp a b\<close> is the \<open>d\<close> with \<open>10^(d - 1) \<le> a / b < 10^d\<close>.
\<close>

function dec_exp_low :: "nat \<Rightarrow> nat \<Rightarrow> int" where
  "dec_exp_low a b = (if a = 0 \<or> b \<le> a * 10 then 0 else dec_exp_low (a * 10) b - 1)"
  by pat_completeness auto
termination
  by (relation "measure (\<lambda>(a, b). b - a)") auto

declare dec_exp_low.simps [simp del]

definition dec_exp :: "nat \<Rightarrow> nat \<Rightarrow> int" where
  "dec_exp a b =
     (if b \<le> a then int (length (nat_digits (a div b))) else dec_exp_low a b)"

text \<open>\<open>s * 10^p\<close> rounds to the Number value \<open>q\<close>.\<close>

definition denotes :: "nat \<Rightarrow> int \<Rightarrow> rat \<Rightarrow> bool" where
  "denotes s p q \<longleftrightarrow> round_double (s * 10 ^ nat p) (10 ^ nat (- p)) = Fin q"

text \<open>
  The pair \<open>(n, s)\<close> for \<open>a / b\<close> with \<open>k\<close> digits, if there is one. The two
  candidates are the \<open>k\<close>-digit numbers next below and next above \<open>a / b\<close>; of
  two that both round to \<open>a / b\<close> the closer is taken, the even one at a tie.
\<close>

definition shortest_at :: "nat \<Rightarrow> nat \<Rightarrow> int \<Rightarrow> nat \<Rightarrow> (int \<times> nat) option" where
  "shortest_at a b d k =
     (let p = d - int k;
          q = of_nat a / of_nat b;
          y_num = a * 10 ^ nat (- p);
          y_den = b * 10 ^ nat p;
          s0 = y_num div y_den;
          s1 = s0 + 1;
          lower = (d, s0);
          upper = (if s1 = 10 ^ k then (d + 1, 10 ^ (k - 1)) else (d, s1))
      in if denotes s0 p q \<and> denotes s1 p q then
           (if 2 * y_num < (2 * s0 + 1) * y_den then Some lower
            else if (2 * s0 + 1) * y_den < 2 * y_num then Some upper
            else if even s0 then Some lower else Some upper)
         else if denotes s0 p q then Some lower
         else if denotes s1 p q then Some upper
         else None)"

text \<open>
  The search for the least \<open>k\<close>, from \<open>k\<close> upwards. Seventeen digits identify every
  double, so the first equation is not reached for a Number value.
\<close>

fun shortest_from :: "nat \<Rightarrow> nat \<Rightarrow> int \<Rightarrow> nat \<Rightarrow> nat \<Rightarrow> int \<times> nat \<times> nat" where
  "shortest_from a b d k 0 =
     (d, k, (a * 10 ^ nat (int k - d)) div (b * 10 ^ nat (d - int k)))"
| "shortest_from a b d k (Suc fuel) =
     (case shortest_at a b d k of
        Some (n, s) \<Rightarrow> (n, k, s)
      | None \<Rightarrow> shortest_from a b d (Suc k) fuel)"

text \<open>The digits of \<open>s\<close> laid out for the decimal exponent \<open>n\<close>.\<close>

definition format_number :: "int \<Rightarrow> nat \<Rightarrow> nat \<Rightarrow> string" where
  "format_number n k s =
     (let ds = nat_digits s
      in if int k \<le> n \<and> n \<le> 21 then ds @ replicate (nat (n - int k)) CHR ''0''
         else if 0 < n \<and> n \<le> 21 then take (nat n) ds @ ''.'' @ drop (nat n) ds
         else if - 6 < n \<and> n \<le> 0 then ''0.'' @ replicate (nat (- n)) CHR ''0'' @ ds
         else
           let e = n - 1;
               es = (if e < 0 then ''-'' else ''+'') @ nat_digits (nat \<bar>e\<bar>)
           in if k = 1 then ds @ ''e'' @ es
              else take 1 ds @ ''.'' @ drop 1 ds @ ''e'' @ es)"

definition positive_toString :: "rat \<Rightarrow> string" where
  "positive_toString q =
     (let (a, b) = quotient_of q;
          (n, k, s) = shortest_from (nat a) (nat b) (dec_exp (nat a) (nat b)) 1 17
      in format_number n k s)"

definition js_toString :: "jsnum \<Rightarrow> string" where
  "js_toString x =
     (case x of
        NaN \<Rightarrow> ''NaN''
      | PosInf \<Rightarrow> ''Infinity''
      | NegInf \<Rightarrow> ''-Infinity''
      | Fin q \<Rightarrow>
          if q = 0 then ''0''
          else if q < 0 then CHR ''-'' # positive_toString (- q)
          else positive_toString q)"

definition is_digit :: "nat \<Rightarrow> bool" where
  "is_digit c \<longleftrightarrow> 48 \<le> c \<and> c \<le> 57"

text \<open>The value of a hexadecimal digit (\<open>0-9\<close>, \<open>a-f\<close>, \<open>A-F\<close>), if it is one.\<close>

definition hex_digit :: "nat \<Rightarrow> nat option" where
  "hex_digit c =
     (if 48 \<le> c \<and> c \<le> 57 then Some (c - 48)
      else if 97 \<le> c \<and> c \<le> 102 then Some (c - 87)
      else if 65 \<le> c \<and> c \<le> 70 then Some (c - 55)
      else None)"

text \<open>
  The mathematical value of a non-empty run of digits in the given base; \<open>None\<close>
  when the run is empty or holds a code unit that is not a digit of that base.
\<close>

fun digits_value :: "nat \<Rightarrow> nat \<Rightarrow> jsstring \<Rightarrow> nat option" where
  "digits_value base acc [] = Some acc"
| "digits_value base acc (c # cs) =
     (case hex_digit c of
        None \<Rightarrow> None
      | Some d \<Rightarrow> if d < base then digits_value base (acc * base + d) cs else None)"

definition digits :: "nat \<Rightarrow> jsstring \<Rightarrow> nat option" where
  "digits base ds = (if ds = [] then None else digits_value base 0 ds)"

text \<open>
  NonDecimalIntegerLiteral: \<open>0b\<close>, \<open>0o\<close> or \<open>0x\<close> (either case) followed by
  digits of that base. No sign is allowed in front.
\<close>

definition non_decimal :: "jsstring \<Rightarrow> nat option" where
  "non_decimal t =
     (case t of
        z # p # ds \<Rightarrow>
          if z \<noteq> 48 then None
          else if p = 98 \<or> p = 66 then digits 2 ds
          else if p = 111 \<or> p = 79 then digits 8 ds
          else if p = 120 \<or> p = 88 then digits 16 ds
          else None
      | _ \<Rightarrow> None)"

text \<open>
  ExponentPart, optional: nothing (exponent 0), or \<open>e\<close>/\<open>E\<close>, an optional sign and
  at least one decimal digit. \<open>None\<close> when the rest of the literal is anything else.
\<close>

definition exponent_part :: "jsstring \<Rightarrow> int option" where
  "exponent_part r =
     (case r of
        [] \<Rightarrow> Some 0
      | c # r' \<Rightarrow>
          if c = 101 \<or> c = 69 then
            (case r' of
               [] \<Rightarrow> None
             | s # r'' \<Rightarrow>
                 if s = 43 then map_option int (digits 10 r'')
                 else if s = 45 then map_option (\<lambda>n. - int n) (digits 10 r'')
                 else map_option int (digits 10 r'))
          else None)"

text \<open>
  StrUnsignedDecimalLiteral other than \<open>Infinity\<close>: digits, an optional point with
  optional digits after it, an optional exponent; at least one digit before or after the
  point. The result \<open>(m, e)\<close> stands for \<open>m * 10^e\<close>.
\<close>

definition unsigned_decimal :: "jsstring \<Rightarrow> (nat \<times> int) option" where
  "unsigned_decimal t =
     (let ip = takeWhile is_digit t;
          r1 = dropWhile is_digit t;
          fp = (case r1 of [] \<Rightarrow> [] | c # r \<Rightarrow> if c = 46 then takeWhile is_digit r else []);
          r2 = (case r1 of [] \<Rightarrow> [] | c # r \<Rightarrow> if c = 46 then dropWhile is_digit r else r1)
      in if ip = [] \<and> fp = [] then None
         else
           (case (digits 10 (ip @ fp), exponent_part r2) of
              (Some m, Some e) \<Rightarrow> Some (m, e - int (length fp))
            | _ \<Rightarrow> None))"

definition unsigned_number :: "jsstring \<Rightarrow> jsnum" where
  "unsigned_number t =
     (if t = utf16 ''Infinity'' then PosInf
      else
        (case unsigned_decimal t of
           None \<Rightarrow> NaN
         | Some (m, e) \<Rightarrow>
             if 0 \<le> e then round_double (m * 10 ^ nat e) 1
             else round_double m (10 ^ nat (- e))))"

definition trim :: "jsstring \<Rightarrow> jsstring" where
  "trim s = rev (dropWhile is_white (rev (dropWhile is_white s)))"

text \<open>
  \<open>Number(token)\<close> for a string (StringToNumber): white space is trimmed, the empty
  string is 0, a non-decimal integer literal or a signed decimal literal is rounded to a
  double, and everything else is NaN.
\<close>

definition js_Number :: "jsstring \<Rightarrow> jsnum" where
  "js_Number s =
     (let t = trim s
      in if t = [] then Fin 0
         else
           (case non_decimal t of
              Some n \<Rightarrow> round_double n 1
            | None \<Rightarrow>
                (case t of
                   [] \<Rightarrow> Fin 0
                 | c # r \<Rightarrow>
                     if c = 43 then unsigned_number r
                     else if c = 45 then negate (unsigned_number r)
                     else unsigned_number t)))"

text \<open>\<open>Number.isInteger(num)\<close>: a finite number with no fractional part.\<close>

definition isInteger :: "jsnum \<Rightarrow> bool" where
  "isInteger x = (case x of Fin q \<Rightarrow> q = of_int \<lfloor>q\<rfloor> | _ \<Rightarrow> False)"

text \<open>\<open>num > 0\<close>.\<close>

definition gt_zero :: "jsnum \<Rightarrow> bool" where
  "gt_zero x = (case x of Fin q \<Rightarrow> 0 < q | PosInf \<Rightarrow> True | _ \<Rightarrow> False)"

text \<open>
  An integer-valued Number as an \<open>int\<close>. It is applied only to the numbers that passed
  \<open>Number.isInteger\<close>, where nothing is lost.
\<close>

definition int_of_num :: "jsnum \<Rightarrow> int" where
  "int_of_num x = (case x of Fin q \<Rightarrow> \<lfloor>q\<rfloor> | _ \<Rightarrow> 0)"

text \<open>
  \<open>Array.from(new Set(numbers))\<close>: the distinct values in the order of their first
  occurrence. \<open>seen\<close> is the set built so far, in insertion order.
\<close>

fun set_from :: "'a list \<Rightarrow> 'a list \<Rightarrow> 'a list" where
  "set_from seen [] = seen"
| "set_from seen (x # xs) =
     (if x \<in> set seen then set_from seen xs else set_from (seen @ [x]) xs)"

text \<open>\<open>xs.every((n, idx) => n === idx + 1)\<close>, with \<open>idx\<close> counted from \<open>i\<close>.\<close>

fun every_succ_index :: "nat \<Rightarrow> int list \<Rightarrow> bool" where
  "every_succ_index i [] = True"
| "every_succ_index i (n # ns) = (n = int i + 1 \<and> every_succ_index (Suc i) ns)"


section \<open>\<open>parseHarvestOrder\<close>\<close>

text \<open>
  The tokens that are kept: \<open>value.split(..).map(Number).filter(..)\<close>. Every kept
  number is a positive integer and is carried as an \<open>int\<close> from here on.
\<close>

definition kept_numbers :: "jsstring \<Rightarrow> int list" where
  "kept_numbers v =
     map int_of_num
       (filter (\<lambda>num. isInteger num \<and> gt_zero num) (map js_Number (js_split [] v)))"

text \<open>The constant \<open>isPermutation\<close> of the source.\<close>

definition isPermutation :: "int list \<Rightarrow> int \<Rightarrow> bool" where
  "isPermutation numbers groupCount =
     (let unique = set_from [] numbers
      in int (length unique) = groupCount \<and>
         list_all (\<lambda>n. 1 \<le> n \<and> n \<le> groupCount) unique \<and>
         every_succ_index 0 (sort unique))"

text \<open>
  \<open>groupCount\<close> is a whole number, of any sign. The guard \<open>!value\<close> is true
  for the empty string (and for \<open>null\<close> and \<open>undefined\<close>, which are not
  strings). Nothing in the body can throw, so the result type has no error case.
\<close>

definition parseHarvestOrder :: "jsstring \<Rightarrow> int \<Rightarrow> int list" where
  "parseHarvestOrder v groupCount =
     (if v = [] then []
      else
        let numbers = kept_numbers v
        in if int (length numbers) \<noteq> groupCount then []
           else if isPermutation numbers groupCount then numbers else [])"


section \<open>The data model\<close>

text \<open>
  The values of the form's controls. A numeric control holds a whole number or
  \<open>null\<close> (\<open>None\<close>), which is what the source's \<open>??\<close> provides for.
\<close>

record FormValue =
  groupCount :: "int option"
  anodeDays :: "int option"
  cathodeA :: "int option"
  cathodeB :: "int option"
  cathodeC :: "int option"
  cleaningDays :: "int option"
  harvestOrder :: jsstring
  groupStartOffsetDays :: "int option"

datatype Severity = Error | Warn | Info

record Message =
  severity :: Severity
  detail :: string

record HarvestPlanInputs =
  groupCount :: int
  anodeDays :: int
  cathodePhases :: "int \<times> int \<times> int"
  cleaningDays :: int
  harvestOrder :: "int list"
  groupStartOffsetDays :: int

datatype PhaseType = Anode | CathodeIn | CathodeOut | CathodeReinserted | Cleaning

text \<open>
  The days of a phase and of an event are Number values: those of the cathode phases come
  from the cathode durations, which the form bounds only from below.
\<close>

record PlanPhase =
  name :: string
  startDay :: jsnum
  endDay :: jsnum
  durationDays :: jsnum
  type :: PhaseType

record PlanEvent =
  name :: string
  day :: jsnum

record GroupPlan =
  group :: int
  startDay :: int
  endDay :: int
  phases :: "PlanPhase list"
  events :: "PlanEvent list"
  harvestDay :: int
  cleaningRange :: "string option"
  cathodeOutRange :: string

text \<open>The fields of the component that the operations below read or write.\<close>

record HarvestPlanComponent =
  form :: FormValue
  plan :: "GroupPlan list"
  maxPlanDay :: int
  timelineDays :: int
  messages :: "Message list"


section \<open>\<open>buildPlan\<close>\<close>

text \<open>The text that a template literal gives for a whole number.\<close>

definition show_int :: "int \<Rightarrow> string" where
  "show_int i = js_toString (num i)"

text \<open>
  The body of the \<open>forEach\<close> callback: the plan of the group \<open>groupNumber\<close> that
  stands at position \<open>index\<close> of the harvest order.

  \<open>buildPlan\<close> is private and \<open>generatePlan\<close> calls it only after
  \<open>validateForm\<close> has passed, so that \<open>index < 100\<close>,
  \<open>groupStartOffsetDays \<le> 30\<close>, \<open>anodeDays \<le> 365\<close> and
  \<open>cleaningDays \<le> 60\<close>: what is computed from these alone (\<open>startDay\<close>,
  \<open>anodeEnd\<close>, \<open>harvestDay\<close>, the cleaning days and \<open>endDay\<close>) stays far
  below \<open>2^53\<close>, where the arithmetic of doubles is exact, and is written with
  \<open>int\<close>. The cathode durations have no upper bound; every sum that involves one is
  computed as the code computes it, in binary64.
\<close>

definition groupPlan :: "HarvestPlanInputs \<Rightarrow> int \<Rightarrow> nat \<Rightarrow> GroupPlan" where
  "groupPlan inputs groupNumber index =
     (let startDay = 1 + int index * groupStartOffsetDays inputs;
          (cathodeA, cathodeB, cathodeC) = cathodePhases inputs;
          anodeEnd = startDay + anodeDays inputs - 1;
          cathodeOutStart = jadd (num startDay) (num cathodeA);
          cathodeOutEnd = jsub (jadd cathodeOutStart (num cathodeB)) (num 1);
          cathodeReinsertStart = jadd cathodeOutEnd (num 1);
          cathodeReinsertEnd = jsub (jadd cathodeReinsertStart (num cathodeC)) (num 1);
          harvestDay = anodeEnd + 1;
          cleaningStart = anodeEnd + 1;
          cleaningEnd = cleaningStart + cleaningDays inputs - 1;
          cleaningRange =
            (if 0 < cleaningDays inputs
             then Some (show_int cleaningStart @ '' - '' @ show_int cleaningEnd)
             else None);
          phases =
            [\<lparr>PlanPhase.name = ''Anode im Elektrolyt'',
              PlanPhase.startDay = num startDay,
              PlanPhase.endDay = num anodeEnd,
              durationDays = num (anodeDays inputs),
              type = Anode\<rparr>,
             \<lparr>PlanPhase.name = ''Kathoden drin'',
              PlanPhase.startDay = num startDay,
              PlanPhase.endDay = jsub (jadd (num startDay) (num cathodeA)) (num 1),
              durationDays = num cathodeA,
              type = CathodeIn\<rparr>,
             \<lparr>PlanPhase.name = ''Kathoden entfernt'',
              PlanPhase.startDay = cathodeOutStart,
              PlanPhase.endDay = cathodeOutEnd,
              durationDays = num cathodeB,
              type = CathodeOut\<rparr>,
             \<lparr>PlanPhase.name = ''Kathoden wieder eingesetzt'',
              PlanPhase.startDay = cathodeReinsertStart,
              PlanPhase.endDay = cathodeReinsertEnd,
              durationDays = num cathodeC,
              type = CathodeReinserted\<rparr>]
            @ (if 0 < cleaningDays inputs
               then [\<lparr>PlanPhase.name = ''Cleaning'',
                      PlanPhase.startDay = num cleaningStart,
                      PlanPhase.endDay = num cleaningEnd,
                      durationDays = num (cleaningDays inputs),
                      type = Cleaning\<rparr>]
               else []);
          events =
            [\<lparr>name = ''Einheben'', day = num startDay\<rparr>,
             \<lparr>name = ''Kathoden raus'', day = cathodeOutStart\<rparr>,
             \<lparr>name = ''Kathoden rein'', day = cathodeReinsertStart\<rparr>,
             \<lparr>name = ''Harvest/Anoden raus'', day = num harvestDay\<rparr>]
            @ (if 0 < cleaningDays inputs
               then [\<lparr>name = ''Cleaning done'', day = num (cleaningEnd + 1)\<rparr>]
               else []);
          endDay = (if 0 < cleaningDays inputs then cleaningEnd + 1 else harvestDay)
      in \<lparr>group = groupNumber,
          startDay = startDay,
          endDay = endDay,
          phases = phases,
          events = events,
          harvestDay = harvestDay,
          cleaningRange = cleaningRange,
          cathodeOutRange = js_toString cathodeOutStart @ '' - '' @ js_toString cathodeOutEnd\<rparr>)"

text \<open>
  \<open>forEach\<close> visits the harvest order with its 0-based index and pushes one plan per
  entry; \<open>Array.prototype.sort\<close> is stable, as \<open>sort_key\<close> is.
\<close>

definition buildPlan :: "HarvestPlanInputs \<Rightarrow> GroupPlan list" where
  "buildPlan inputs =
     sort_key group
       (map (\<lambda>(index, groupNumber). groupPlan inputs groupNumber index)
          (enumerate 0 (harvestOrder inputs)))"


section \<open>The form and \<open>validateForm\<close>\<close>

text \<open>
  The validators of the constructor, each true when the control passes:
  \<open>Validators.required\<close> rejects \<open>null\<close> and the empty string;
  \<open>Validators.min\<close> and \<open>Validators.max\<close> accept \<open>null\<close>.
\<close>

definition required :: "int option \<Rightarrow> bool" where
  "required v \<longleftrightarrow> v \<noteq> None"

definition vmin :: "int \<Rightarrow> int option \<Rightarrow> bool" where
  "vmin m v = (case v of None \<Rightarrow> True | Some n \<Rightarrow> m \<le> n)"

definition vmax :: "int \<Rightarrow> int option \<Rightarrow> bool" where
  "vmax m v = (case v of None \<Rightarrow> True | Some n \<Rightarrow> n \<le> m)"

text \<open>\<open>this.form.invalid\<close>: some control fails one of its validators.\<close>

definition form_invalid :: "FormValue \<Rightarrow> bool" where
  "form_invalid f \<longleftrightarrow>
     \<not> (required (FormValue.groupCount f) \<and> vmin 1 (FormValue.groupCount f) \<and>
          vmax 100 (FormValue.groupCount f) \<and>
        required (FormValue.anodeDays f) \<and> vmin 1 (FormValue.anodeDays f) \<and>
          vmax 365 (FormValue.anodeDays f) \<and>
        required (cathodeA f) \<and> vmin 0 (cathodeA f) \<and>
        required (cathodeB f) \<and> vmin 0 (cathodeB f) \<and>
        required (cathodeC f) \<and> vmin 0 (cathodeC f) \<and>
        required (FormValue.cleaningDays f) \<and> vmin 0 (FormValue.cleaningDays f) \<and>
          vmax 60 (FormValue.cleaningDays f) \<and>
        FormValue.harvestOrder f \<noteq> [] \<and>
        required (FormValue.groupStartOffsetDays f) \<and>
          vmin 0 (FormValue.groupStartOffsetDays f) \<and>
          vmax 30 (FormValue.groupStartOffsetDays f))"

text \<open>
  \<open>v ?? 0\<close>. It also stands for a \<open>null\<close> control read into \<open>inputs\<close>,
  which the arithmetic and comparisons of \<open>buildPlan\<close> treat as 0.
\<close>

definition or_zero :: "int option \<Rightarrow> int" where
  "or_zero v = (case v of None \<Rightarrow> 0 | Some n \<Rightarrow> n)"

text \<open>The getter adds the three durations as doubles, from the left.\<close>

definition cathodeSum :: "FormValue \<Rightarrow> jsnum" where
  "cathodeSum f =
     jadd (jadd (num (or_zero (cathodeA f))) (num (or_zero (cathodeB f))))
       (num (or_zero (cathodeC f)))"

text \<open>\<open>sum !== anodeDays\<close>; a number is never \<open>null\<close>.\<close>

definition cathodeSumMismatch :: "FormValue \<Rightarrow> bool" where
  "cathodeSumMismatch f \<longleftrightarrow>
     (case FormValue.anodeDays f of
        None \<Rightarrow> True
      | Some d \<Rightarrow> \<not> strict_eq (cathodeSum f) (num d))"

text \<open>
  \<open>this.parseHarvestOrder(orderRaw, groupCount)\<close> on the form's values. A
  \<open>groupCount\<close> of \<open>null\<close> differs from every length, so the result is empty.
\<close>

definition parsedOrder :: "FormValue \<Rightarrow> int list" where
  "parsedOrder f =
     (case FormValue.groupCount f of
        None \<Rightarrow> []
      | Some g \<Rightarrow> parseHarvestOrder (FormValue.harvestOrder f) g)"

text \<open>The local array \<open>errors\<close> of \<open>validateForm\<close> after its three checks.\<close>

definition findings :: "FormValue \<Rightarrow> Message list" where
  "findings f =
     (if form_invalid f
      then [\<lparr>severity = Error,
             detail = ''Bitte alle Pflichtfelder korrekt ausf'' @ [CHR 0xFC] @ ''llen.''\<rparr>]
      else [])
     @ (if parsedOrder f = []
        then [\<lparr>severity = Error, detail = ''Harvest-Reihenfolge ist ung'' @ [CHR 0xFC] @ ''ltig.''\<rparr>]
        else [])
     @ (if cathodeSumMismatch f
        then [\<lparr>severity = Warn,
               detail = ''Summe der Kathoden-Phasen entspricht nicht anodeDays.''\<rparr>]
        else [])"

definition validateForm :: "HarvestPlanComponent \<Rightarrow> bool \<Rightarrow> bool \<times> HarvestPlanComponent" where
  "validateForm c showErrors =
     (let errors = findings (form c);
          c' = (if showErrors then c\<lparr>messages := errors\<rparr> else c)
      in (length (filter (\<lambda>e. severity e = Error) errors) = 0, c'))"

text \<open>The object \<open>inputs\<close> that \<open>generatePlan\<close> assembles from the form.\<close>

definition formInputs :: "FormValue \<Rightarrow> HarvestPlanInputs" where
  "formInputs f =
     \<lparr>groupCount = or_zero (FormValue.groupCount f),
      anodeDays = or_zero (FormValue.anodeDays f),
      cathodePhases = (or_zero (cathodeA f), or_zero (cathodeB f), or_zero (cathodeC f)),
      cleaningDays = or_zero (FormValue.cleaningDays f),
      harvestOrder = parsedOrder f,
      groupStartOffsetDays = or_zero (FormValue.groupStartOffsetDays f)\<rparr>"

definition generatePlan :: "HarvestPlanComponent \<Rightarrow> HarvestPlanComponent" where
  "generatePlan c =
     (let (validationPassed, c1) = validateForm (c\<lparr>messages := []\<rparr>) True
      in if \<not> validationPassed then c1\<lparr>plan := [], maxPlanDay := 0\<rparr>
         else
           let p = buildPlan (formInputs (form c1));
               m = foldl (\<lambda>mx gp. max mx (endDay gp)) 0 p
           in c1\<lparr>plan := p, maxPlanDay := m,
                timelineDays := max 42 (if m = 0 then 0 else m)\<rparr>)"


section \<open>Valid inputs and example values\<close>

text \<open>
  The inputs that \<open>buildPlan\<close> is meant for: a positive group count, at least one
  anode day, cathode durations, cleaning days and start offset not negative, and a harvest
  order that is a permutation of \<open>1..groupCount\<close>.
\<close>

definition valid_inputs :: "HarvestPlanInputs \<Rightarrow> bool" where
  "valid_inputs i \<longleftrightarrow>
     1 \<le> groupCount i \<and> 1 \<le> anodeDays i \<and>
     0 \<le> fst (cathodePhases i) \<and> 0 \<le> fst (snd (cathodePhases i)) \<and>
     0 \<le> snd (snd (cathodePhases i)) \<and>
     0 \<le> cleaningDays i \<and> 0 \<le> groupStartOffsetDays i \<and>
     distinct (harvestOrder i) \<and> set (harvestOrder i) = {1..groupCount i}"


text \<open>Three groups started in the order 2, 1, 3, five days apart, with two cleaning days.\<close>

definition example_inputs :: HarvestPlanInputs where
  "example_inputs =
     \<lparr>groupCount = 3, anodeDays = 10, cathodePhases = (4, 3, 3), cleaningDays = 2,
      harvestOrder = [2, 1, 3], groupStartOffsetDays = 5\<rparr>"

text \<open>Cathode phases of 15 days against 14 anode days, and no cleaning.\<close>

definition overrun_inputs :: HarvestPlanInputs where
  "overrun_inputs =
     \<lparr>groupCount = 2, anodeDays = 14, cathodePhases = (5, 5, 5), cleaningDays = 0,
      harvestOrder = [2, 1], groupStartOffsetDays = 1\<rparr>"


text \<open>
  One group whose first cathode phase lasts \<open>2^53\<close> days: every validator of the
  form accepts it.
\<close>

definition huge_cathode_inputs :: HarvestPlanInputs where
  "huge_cathode_inputs =
     \<lparr>groupCount = 1, anodeDays = 14, cathodePhases = (9007199254740992, 5, 4),
      cleaningDays = 0, harvestOrder = [1], groupStartOffsetDays = 1\<rparr>"










section \<open>Whole numbers as doubles\<close>

text \<open>
  Up to \<open>2^53\<close> in absolute value a whole number is a double, and a sum or
  difference that stays in that range is exact.
\<close>

lemma bit_length_le: "a < 2 ^ n \<Longrightarrow> bit_length a \<le> n"
proof (induction n arbitrary: a)
  case 0
  then show ?case by (simp add: bit_length.simps)
next
  case (Suc n)
  show ?case
  proof (cases "a = 0")
    case True
    then show ?thesis by (simp add: bit_length.simps)
  next
    case False
    from Suc.prems have "a div 2 < 2 ^ n" by simp
    then have "bit_length (a div 2) \<le> n" by (rule Suc.IH)
    with False show ?thesis by (subst bit_length.simps) simp
  qed
qed

lemma bit_length_pos: "0 < a \<Longrightarrow> 0 < bit_length a"
  by (subst bit_length.simps) simp

lemma bit_length_lower: "0 < a \<Longrightarrow> 2 ^ (bit_length a - 1) \<le> a"
proof (induction a rule: bit_length.induct)
  case (1 n)
  show ?case
  proof (cases "n div 2 = 0")
    case True
    with 1(2) have "n = 1" by (simp add: div_eq_0_iff) 
    then show ?thesis by (simp add: bit_length.simps)
  next
    case False
    then have h: "0 < n div 2" by simp
    with 1 have ih: "2 ^ (bit_length (n div 2) - 1) \<le> n div 2" by simp
    from h have "0 < bit_length (n div 2)" by (rule bit_length_pos)
    then have "2 ^ bit_length (n div 2) = (2::nat) * 2 ^ (bit_length (n div 2) - 1)"
      by (cases "bit_length (n div 2)") simp_all
    with ih have "2 ^ bit_length (n div 2) \<le> 2 * (n div 2)" by simp
    also have "\<dots> \<le> n" by simp
    finally have "2 ^ bit_length (n div 2) \<le> n" .
    moreover from 1(2) have "bit_length n = Suc (bit_length (n div 2))"
      by (subst bit_length.simps) simp
    ultimately show ?thesis by simp
  qed
qed

lemma floor_log2_one:
  assumes "0 < a"
  shows "floor_log2 a (Suc 0) = int (bit_length a) - 1"
proof -
  define d where "d = int (bit_length a) - int (bit_length (Suc 0))"
  have one: "bit_length (Suc 0) = Suc 0"
    by (simp add: bit_length.simps)
  from assms have p: "0 < bit_length a" by (rule bit_length_pos)
  with one have d: "d = int (bit_length a) - 1" "0 \<le> d" "nat d = bit_length a - 1"
    by (simp_all add: d_def)
  from d(2) have l: "mul2 a (- d) = a"
    by (simp add: mul2_def)
  have r: "mul2 (Suc 0) d = 2 ^ (bit_length a - 1)"
    by (simp add: mul2_def d(3))
  from bit_length_lower [OF assms] have "\<not> mul2 a (- d) < mul2 (Suc 0) d"
    by (simp add: l r)
  then have "floor_log2 a (Suc 0) = d"
    unfolding floor_log2_def Let_def d_def [symmetric] by (rule if_not_P)
  with d(1) show ?thesis by simp
qed

lemma round_double_below:
  assumes "0 < a" and "a < 2 ^ 53"
  shows "round_double a (Suc 0) = Fin (of_nat a)"
proof -
  define e where "e = max (floor_log2 a (Suc 0)) (- 1022)"
  define k where "k = 52 - e"
  define n where "n = mul2 a k"
  define den where "den = mul2 (Suc 0) (- k)"
  define q where "q = n div den"
  define r where "r = n mod den"
  define m where "m = (if 2 * r < den then q else if den < 2 * r then q + 1
                       else if even q then q else q + 1)"
  from assms(2) have "bit_length a \<le> 53" by (rule bit_length_le)
  moreover from assms(1) have "0 < bit_length a" by (rule bit_length_pos)
  ultimately have e: "0 \<le> e" "e \<le> 52"
    by (simp_all add: e_def floor_log2_one [OF assms(1)])
  then have k: "0 \<le> k" by (simp add: k_def)
  then have den: "den = 1" by (simp add: den_def mul2_def)
  then have "q = n" "r = 0" by (simp_all add: q_def r_def)
  with den have m: "m = n" by (simp add: m_def)
  from k have mk: "mul2 m (- k) = n" by (simp add: mul2_def m)
  have n: "n = a * 2 ^ nat k" by (simp add: n_def mul2_def)
  define P where "P = (2::nat) ^ 1024"
  have big: "\<not> mul2 (2 ^ 1024) k \<le> mul2 m (- k)"
  proof -
    from assms(2) have "a < P"
      unfolding P_def by (rule less_le_trans) simp
    then have "a * 2 ^ nat k < P * 2 ^ nat k" by simp
    moreover have "mul2 P k = P * 2 ^ nat k" by (simp only: mul2_def)
    moreover have "mul2 m (- k) = a * 2 ^ nat k" by (simp only: mk n)
    ultimately have "\<not> mul2 P k \<le> mul2 m (- k)"
      by simp
    then show ?thesis unfolding P_def .
  qed
  have "round_double a (Suc 0) =
        (if mul2 (2 ^ 1024) k \<le> mul2 m (- k) then PosInf
         else Fin (of_nat (mul2 m (- k)) / of_nat (mul2 1 k)))"
    using assms(1)
    unfolding round_double_def Let_def e_def [symmetric] k_def [symmetric]
      n_def [symmetric] den_def [symmetric] q_def [symmetric] r_def [symmetric]
      m_def [symmetric]
    by simp
  also have "\<dots> = Fin (of_nat (mul2 m (- k)) / of_nat (mul2 1 k))"
    using big by (rule if_not_P)
  also have "\<dots> = Fin (of_nat (a * 2 ^ nat k) / of_nat (2 ^ nat k))"
  proof -
    have "mul2 m (- k) = a * 2 ^ nat k" by (simp only: mk n)
    moreover have "mul2 1 k = 2 ^ nat k" by (simp add: mul2_def)
    ultimately show ?thesis by (simp only:)
  qed
  also have "\<dots> = Fin (of_nat a)"
    by simp
  finally show ?thesis .
qed

lemma round_double_2_53: "round_double (2 ^ 53) (Suc 0) = Fin (2 ^ 53)"
  by (simp add: round_double_def floor_log2_def mul2_def bit_length.simps Let_def)

lemma round_double_exact:
  assumes "0 < a" and "a \<le> 2 ^ 53"
  shows "round_double a (Suc 0) = Fin (of_nat a)"
proof (cases "a = 2 ^ 53")
  case True
  then show ?thesis by (simp only: round_double_2_53) simp
next
  case False
  with assms(2) have "a < 2 ^ 53" by simp
  with assms(1) show ?thesis by (rule round_double_below)
qed

lemma round_rat_int:
  assumes "\<bar>z\<bar> \<le> 2 ^ 53"
  shows "round_rat (of_int z) = num z"
proof -
  have q: "quotient_of (of_int z) = (z, 1)"
    by (simp add: of_int_rat quotient_of_Fract)
  consider "z = 0" | "0 < z" | "z < 0" by linarith
  then show ?thesis
  proof cases
    case 1
    then show ?thesis by (simp add: round_rat_def round_double_def num_def)
  next
    case 2
    with assms have "0 < nat z" "nat z \<le> 2 ^ 53" by (simp_all add: nat_le_iff)
    then have "round_double (nat z) (Suc 0) = Fin (of_nat (nat z))"
      by (rule round_double_exact)
    with 2 show ?thesis by (simp add: round_rat_def q num_def)
  next
    case 3
    with assms have "0 < nat (- z)" "nat (- z) \<le> 2 ^ 53" by (simp_all add: nat_le_iff)
    then have "round_double (nat (- z)) (Suc 0) = Fin (of_nat (nat (- z)))"
      by (rule round_double_exact)
    with 3 show ?thesis by (simp add: round_rat_def q num_def negate_def)
  qed
qed

lemma jadd_num:
  assumes "\<bar>x + y\<bar> \<le> 2 ^ 53"
  shows "jadd (num x) (num y) = num (x + y)"
proof -
  have "jadd (num x) (num y) = round_rat (of_int (x + y))"
    by (simp add: jadd_def num_def)
  with assms show ?thesis by (simp only: round_rat_int)
qed

lemma negate_num: "negate (num x) = num (- x)"
  by (simp add: negate_def num_def)

lemma jsub_num:
  assumes "\<bar>x - y\<bar> \<le> 2 ^ 53"
  shows "jsub (num x) (num y) = num (x - y)"
  using assms jadd_num [of x "- y"] by (simp add: jsub_def negate_num)

lemma num_eq_iff: "num x = num y \<longleftrightarrow> x = y"
  by (simp add: num_def)


section \<open>The groups of a plan\<close>

lemma group_groupPlan: "group (groupPlan i g k) = g"
  by (simp add: groupPlan_def Let_def split: prod.splits)

lemma map_group_pushed:
  "map group (map (\<lambda>(index, groupNumber). groupPlan i groupNumber index) (enumerate n xs)) = xs"
  by (induction xs arbitrary: n) (simp_all add: group_groupPlan)

lemma length_buildPlan: "length (buildPlan i) = length (harvestOrder i)"
  by (simp add: buildPlan_def)

lemma set_groups_buildPlan: "set (map group (buildPlan i)) = set (harvestOrder i)"
proof -
  have "set (map group (buildPlan i)) =
        set (map group (map (\<lambda>(index, groupNumber). groupPlan i groupNumber index)
               (enumerate 0 (harvestOrder i))))"
    unfolding buildPlan_def by (simp only: set_map set_sort)
  then show ?thesis by (simp only: map_group_pushed)
qed

lemma sorted_groups_buildPlan: "sorted (map group (buildPlan i))"
  by (simp add: buildPlan_def)

lemma distinct_groups_buildPlan:
  assumes "distinct (harvestOrder i)"
  shows "distinct (map group (buildPlan i))"
proof -
  have "card (set (map group (buildPlan i))) = length (map group (buildPlan i))"
    using assms by (simp only: set_groups_buildPlan distinct_card length_map length_buildPlan)
  then show ?thesis by (rule card_distinct)
qed

lemma groups_buildPlan_upto:
  assumes "distinct (harvestOrder i)" and "set (harvestOrder i) = {1..groupCount i}"
  shows "map group (buildPlan i) = [1..groupCount i]"
proof (rule sorted_distinct_set_unique)
  show "sorted (map group (buildPlan i))" by (rule sorted_groups_buildPlan)
  show "distinct (map group (buildPlan i))" using assms(1) by (rule distinct_groups_buildPlan)
  show "set (map group (buildPlan i)) = set [1..groupCount i]"
    unfolding set_groups_buildPlan using assms(2) by simp
qed simp_all

text \<open>
  C1. When the harvest order is a permutation of \<open>1..groupCount\<close> (the group count not
  negative), \<open>buildPlan\<close> returns exactly \<open>groupCount\<close> plans, and their group
  numbers, read in the order of the returned list, are \<open>1, 2, ..., groupCount\<close>:
  each group once, in ascending order.
\<close>

theorem buildPlan_groups:
  assumes "0 \<le> groupCount i"
    and "distinct (harvestOrder i)"
    and "set (harvestOrder i) = {1..groupCount i}"
  shows "int (length (buildPlan i)) = groupCount i \<and>
         map group (buildPlan i) = [1..groupCount i] \<and>
         sorted (map group (buildPlan i))"
proof -
  have eq: "map group (buildPlan i) = [1..groupCount i]"
    using assms(2,3) by (rule groups_buildPlan_upto)
  then have "length (map group (buildPlan i)) = length [1..groupCount i]"
    by simp
  then have "int (length (buildPlan i)) = groupCount i"
    using assms(1) by simp
  with eq show ?thesis by (simp add: sorted_groups_buildPlan)
qed

theorem buildPlan_groups_witness:
  "int (length (buildPlan example_inputs)) = 3 \<and>
   map group (buildPlan example_inputs) = [1, 2, 3]"
proof -
  have g: "0 \<le> groupCount example_inputs"
    by (simp add: example_inputs_def)
  have d: "distinct (harvestOrder example_inputs)"
    by (simp add: example_inputs_def)
  have s: "set (harvestOrder example_inputs) = {1..groupCount example_inputs}"
    by (auto simp: example_inputs_def)
  have u: "[1..(3::int)] = [1, 2, 3]"
    by (simp add: upto.simps)
  from buildPlan_groups [OF g d s] u show ?thesis
    by (simp add: example_inputs_def)
qed


section \<open>The plan of one group\<close>

lemma startDay_groupPlan: "startDay (groupPlan i g k) = 1 + int k * groupStartOffsetDays i"
  by (simp add: groupPlan_def Let_def split: prod.splits)

lemma harvestDay_groupPlan:
  "harvestDay (groupPlan i g k) = startDay (groupPlan i g k) + anodeDays i - 1 + 1"
  by (simp add: groupPlan_def Let_def split: prod.splits)

lemma endDay_groupPlan:
  "endDay (groupPlan i g k) =
     (if 0 < cleaningDays i then startDay (groupPlan i g k) + anodeDays i - 1 + cleaningDays i + 1
      else harvestDay (groupPlan i g k))"
  by (simp add: groupPlan_def Let_def split: prod.splits)

lemma cleaningRange_groupPlan:
  "cleaningRange (groupPlan i g k) =
     (if 0 < cleaningDays i
      then Some (show_int (startDay (groupPlan i g k) + anodeDays i - 1 + 1) @ '' - '' @
                 show_int (startDay (groupPlan i g k) + anodeDays i - 1 + cleaningDays i))
      else None)"
  by (simp add: groupPlan_def Let_def ac_simps split: prod.splits)

text \<open>The phases as the code computes them, the cathode days in binary64.\<close>

lemma phases_groupPlan:
  assumes "cathodePhases i = (A, B, C)" and "s = startDay (groupPlan i g k)"
    and "outStart = jadd (num s) (num A)"
    and "outEnd = jsub (jadd outStart (num B)) (num 1)"
    and "reStart = jadd outEnd (num 1)"
    and "reEnd = jsub (jadd reStart (num C)) (num 1)"
  shows "phases (groupPlan i g k) =
     [\<lparr>PlanPhase.name = ''Anode im Elektrolyt'', PlanPhase.startDay = num s,
       PlanPhase.endDay = num (s + anodeDays i - 1), durationDays = num (anodeDays i),
       type = Anode\<rparr>,
      \<lparr>PlanPhase.name = ''Kathoden drin'', PlanPhase.startDay = num s,
       PlanPhase.endDay = jsub (jadd (num s) (num A)) (num 1), durationDays = num A,
       type = CathodeIn\<rparr>,
      \<lparr>PlanPhase.name = ''Kathoden entfernt'', PlanPhase.startDay = outStart,
       PlanPhase.endDay = outEnd, durationDays = num B, type = CathodeOut\<rparr>,
      \<lparr>PlanPhase.name = ''Kathoden wieder eingesetzt'', PlanPhase.startDay = reStart,
       PlanPhase.endDay = reEnd, durationDays = num C, type = CathodeReinserted\<rparr>]
     @ (if 0 < cleaningDays i
        then [\<lparr>PlanPhase.name = ''Cleaning'', PlanPhase.startDay = num (s + anodeDays i - 1 + 1),
               PlanPhase.endDay = num (s + anodeDays i - 1 + cleaningDays i),
               durationDays = num (cleaningDays i), type = Cleaning\<rparr>]
        else [])"
  using assms by (simp add: groupPlan_def Let_def num_eq_iff)

text \<open>
  While the last cathode day is at most \<open>2^53\<close> every sum is exact, and the cathode
  days are the whole numbers of ordinary arithmetic.
\<close>

lemma cathode_days_exact:
  assumes "0 \<le> A" and "0 \<le> B" and "0 \<le> C" and "0 \<le> s"
    and "s + A + B + C \<le> 2 ^ 53"
  shows "jadd (num s) (num A) = num (s + A)"
    and "jsub (num (s + A)) (num 1) = num (s + A - 1)"
    and "jadd (num (s + A)) (num B) = num (s + A + B)"
    and "jsub (num (s + A + B)) (num 1) = num (s + A + B - 1)"
    and "jadd (num (s + A + B - 1)) (num 1) = num (s + A + B)"
    and "jadd (num (s + A + B)) (num C) = num (s + A + B + C)"
    and "jsub (num (s + A + B + C)) (num 1) = num (s + A + B + C - 1)"
proof -
  from assms have a: "\<bar>s + A\<bar> \<le> 2 ^ 53" "\<bar>s + A - 1\<bar> \<le> 2 ^ 53"
    "\<bar>s + A + B\<bar> \<le> 2 ^ 53" "\<bar>s + A + B - 1\<bar> \<le> 2 ^ 53"
    "\<bar>s + A + B - 1 + 1\<bar> \<le> 2 ^ 53"
    "\<bar>s + A + B + C\<bar> \<le> 2 ^ 53" "\<bar>s + A + B + C - 1\<bar> \<le> 2 ^ 53"
    by simp_all
  show "jadd (num s) (num A) = num (s + A)"
    using a(1) by (rule jadd_num)
  show "jsub (num (s + A)) (num 1) = num (s + A - 1)"
    using a(2) by (rule jsub_num)
  show "jadd (num (s + A)) (num B) = num (s + A + B)"
    using a(3) by (rule jadd_num)
  show "jsub (num (s + A + B)) (num 1) = num (s + A + B - 1)"
    using a(4) by (rule jsub_num)
  have "jadd (num (s + A + B - 1)) (num 1) = num (s + A + B - 1 + 1)"
    using a(5) by (rule jadd_num)
  then show "jadd (num (s + A + B - 1)) (num 1) = num (s + A + B)"
    by simp
  show "jadd (num (s + A + B)) (num C) = num (s + A + B + C)"
    using a(6) by (rule jadd_num)
  show "jsub (num (s + A + B + C)) (num 1) = num (s + A + B + C - 1)"
    using a(7) by (rule jsub_num)
qed

lemma phases_groupPlan_exact:
  assumes "cathodePhases i = (A, B, C)" and "s = startDay (groupPlan i g k)"
    and "0 \<le> A" and "0 \<le> B" and "0 \<le> C" and "0 \<le> s"
    and "s + A + B + C \<le> 2 ^ 53"
  shows "phases (groupPlan i g k) =
     [\<lparr>PlanPhase.name = ''Anode im Elektrolyt'', PlanPhase.startDay = num s,
       PlanPhase.endDay = num (s + anodeDays i - 1), durationDays = num (anodeDays i),
       type = Anode\<rparr>,
      \<lparr>PlanPhase.name = ''Kathoden drin'', PlanPhase.startDay = num s,
       PlanPhase.endDay = num (s + A - 1), durationDays = num A, type = CathodeIn\<rparr>,
      \<lparr>PlanPhase.name = ''Kathoden entfernt'', PlanPhase.startDay = num (s + A),
       PlanPhase.endDay = num (s + A + B - 1), durationDays = num B, type = CathodeOut\<rparr>,
      \<lparr>PlanPhase.name = ''Kathoden wieder eingesetzt'', PlanPhase.startDay = num (s + A + B),
       PlanPhase.endDay = num (s + A + B + C - 1), durationDays = num C,
       type = CathodeReinserted\<rparr>]
     @ (if 0 < cleaningDays i
        then [\<lparr>PlanPhase.name = ''Cleaning'', PlanPhase.startDay = num (s + anodeDays i - 1 + 1),
               PlanPhase.endDay = num (s + anodeDays i - 1 + cleaningDays i),
               durationDays = num (cleaningDays i), type = Cleaning\<rparr>]
        else [])"
  by (simp only: phases_groupPlan [OF assms(1,2) refl refl refl refl]
      cathode_days_exact [OF assms(3-7)])

lemma events_groupPlan:
  assumes "cathodePhases i = (A, B, C)" and "s = startDay (groupPlan i g k)"
    and "outStart = jadd (num s) (num A)"
    and "outEnd = jsub (jadd outStart (num B)) (num 1)"
  shows "events (groupPlan i g k) =
     [\<lparr>name = ''Einheben'', day = num s\<rparr>,
      \<lparr>name = ''Kathoden raus'', day = outStart\<rparr>,
      \<lparr>name = ''Kathoden rein'', day = jadd outEnd (num 1)\<rparr>,
      \<lparr>name = ''Harvest/Anoden raus'', day = num (harvestDay (groupPlan i g k))\<rparr>]
     @ (if 0 < cleaningDays i
        then [\<lparr>name = ''Cleaning done'', day = num (endDay (groupPlan i g k))\<rparr>]
        else [])"
  using assms by (simp add: groupPlan_def Let_def num_eq_iff)

lemma in_buildPlan:
  "p \<in> set (buildPlan i) \<longleftrightarrow>
     (\<exists>k < length (harvestOrder i). p = groupPlan i (harvestOrder i ! k) k)"
proof -
  have "set (buildPlan i) =
        (\<lambda>(index, groupNumber). groupPlan i groupNumber index) ` set (enumerate 0 (harvestOrder i))"
    by (simp add: buildPlan_def)
  then show ?thesis
    by (force simp: in_set_enumerate_eq image_iff)
qed

lemma buildPlan_example:
  "buildPlan example_inputs =
     [groupPlan example_inputs 1 1, groupPlan example_inputs 2 0, groupPlan example_inputs 3 2]"
  by (simp add: buildPlan_def group_groupPlan example_inputs_def numeral_2_eq_2)

lemma buildPlan_overrun:
  "buildPlan overrun_inputs = [groupPlan overrun_inputs 1 1, groupPlan overrun_inputs 2 0]"
  by (simp add: buildPlan_def group_groupPlan overrun_inputs_def)


lemma buildPlan_huge_cathode:
  "buildPlan huge_cathode_inputs = [groupPlan huge_cathode_inputs 1 0]"
  by (simp add: buildPlan_def huge_cathode_inputs_def)

text \<open>
  C2. When the harvest order has no repeated group, the returned list holds a plan for the
  group at each position \<open>k\<close> of the harvest order, and every returned plan of that
  group starts on day \<open>1 + k * groupStartOffsetDays\<close>: the position in the harvest
  order decides the start day, while the returned list is in ascending order of group.
\<close>

theorem startDay_by_position:
  assumes "distinct (harvestOrder i)" and "k < length (harvestOrder i)"
  shows "(\<exists>p \<in> set (buildPlan i). group p = harvestOrder i ! k) \<and>
         (\<forall>p \<in> set (buildPlan i).
            group p = harvestOrder i ! k \<longrightarrow>
            startDay p = 1 + int k * groupStartOffsetDays i) \<and>
         sorted (map group (buildPlan i))"
proof (intro conjI ballI impI)
  have "groupPlan i (harvestOrder i ! k) k \<in> set (buildPlan i)"
    using assms(2) by (auto simp: in_buildPlan)
  then show "\<exists>p \<in> set (buildPlan i). group p = harvestOrder i ! k"
    by (rule bexI [rotated]) (simp add: group_groupPlan)
next
  fix p
  assume "p \<in> set (buildPlan i)" and g: "group p = harvestOrder i ! k"
  then obtain j where j: "j < length (harvestOrder i)"
    and p: "p = groupPlan i (harvestOrder i ! j) j"
    by (auto simp: in_buildPlan)
  from g p have "harvestOrder i ! j = harvestOrder i ! k"
    by (simp add: group_groupPlan)
  with assms j have "j = k"
    by (simp add: nth_eq_iff_index_eq)
  with p show "startDay p = 1 + int k * groupStartOffsetDays i"
    by (simp add: startDay_groupPlan)
next
  show "sorted (map group (buildPlan i))"
    by (rule sorted_groups_buildPlan)
qed

theorem startDay_by_position_witness:
  "harvestOrder example_inputs ! 0 = 2 \<and>
   group (buildPlan example_inputs ! Suc 0) = 2 \<and>
   startDay (buildPlan example_inputs ! Suc 0) = 1"
proof -
  have d: "distinct (harvestOrder example_inputs)"
    by (simp add: example_inputs_def)
  have k: "0 < length (harvestOrder example_inputs)"
    by (simp add: example_inputs_def)
  have h: "harvestOrder example_inputs ! 0 = 2"
    by (simp add: example_inputs_def)
  have m: "buildPlan example_inputs ! Suc 0 \<in> set (buildPlan example_inputs)"
    by (rule nth_mem) (simp add: length_buildPlan example_inputs_def)
  have g: "group (buildPlan example_inputs ! Suc 0) = 2"
    by (simp add: buildPlan_example group_groupPlan)
  from startDay_by_position [OF d k]
  have "\<forall>p \<in> set (buildPlan example_inputs).
          group p = harvestOrder example_inputs ! 0 \<longrightarrow>
          startDay p = 1 + int 0 * groupStartOffsetDays example_inputs"
    by blast
  with m g h have "startDay (buildPlan example_inputs ! Suc 0) = 1"
    by simp
  with g h show ?thesis
    by simp
qed

text \<open>
  C3. For every returned plan, with \<open>anodeEnd = startDay + anodeDays - 1\<close>: the
  harvest day is \<open>anodeEnd + 1\<close>. With \<open>cleaningDays > 0\<close> there is exactly one
  cleaning phase, from \<open>anodeEnd + 1\<close> to \<open>anodeEnd + cleaningDays\<close>, the cleaning
  range is the text of these two days, the plan ends on \<open>anodeEnd + cleaningDays + 1\<close>
  and exactly one \<open>Cleaning done\<close> event is emitted, on that end day. With
  \<open>cleaningDays = 0\<close> there is no cleaning phase, no cleaning range and no
  \<open>Cleaning done\<close> event, and the plan ends on the harvest day.
\<close>

theorem harvest_and_cleaning:
  assumes "p \<in> set (buildPlan i)" and "anodeEnd = startDay p + anodeDays i - 1"
  shows "harvestDay p = anodeEnd + 1 \<and>
         (0 < cleaningDays i \<longrightarrow>
            filter (\<lambda>ph. type ph = Cleaning) (phases p) =
              [\<lparr>PlanPhase.name = ''Cleaning'', PlanPhase.startDay = num (anodeEnd + 1),
                PlanPhase.endDay = num (anodeEnd + cleaningDays i),
                durationDays = num (cleaningDays i), type = Cleaning\<rparr>] \<and>
            cleaningRange p =
              Some (show_int (anodeEnd + 1) @ '' - '' @ show_int (anodeEnd + cleaningDays i)) \<and>
            endDay p = anodeEnd + cleaningDays i + 1 \<and>
            filter (\<lambda>e. name e = ''Cleaning done'') (events p) =
              [\<lparr>name = ''Cleaning done'', day = num (endDay p)\<rparr>]) \<and>
         (cleaningDays i = 0 \<longrightarrow>
            filter (\<lambda>ph. type ph = Cleaning) (phases p) = [] \<and>
            cleaningRange p = None \<and>
            filter (\<lambda>e. name e = ''Cleaning done'') (events p) = [] \<and>
            endDay p = harvestDay p)"
proof -
  from assms(1) obtain k where p: "p = groupPlan i (harvestOrder i ! k) k"
    by (auto simp: in_buildPlan)
  obtain A B C where c: "cathodePhases i = (A, B, C)"
    by (cases "cathodePhases i")
  note ph = phases_groupPlan [OF c refl refl refl refl refl, of "harvestOrder i ! k" k]
  note ev = events_groupPlan [OF c refl refl refl, of "harvestOrder i ! k" k]
  have h: "harvestDay p = anodeEnd + 1"
    by (simp add: p assms(2) harvestDay_groupPlan)
  have pos: "filter (\<lambda>ph. type ph = Cleaning) (phases p) =
              [\<lparr>PlanPhase.name = ''Cleaning'', PlanPhase.startDay = num (anodeEnd + 1),
                PlanPhase.endDay = num (anodeEnd + cleaningDays i),
                durationDays = num (cleaningDays i), type = Cleaning\<rparr>] \<and>
            cleaningRange p =
              Some (show_int (anodeEnd + 1) @ '' - '' @ show_int (anodeEnd + cleaningDays i)) \<and>
            endDay p = anodeEnd + cleaningDays i + 1 \<and>
            filter (\<lambda>e. name e = ''Cleaning done'') (events p) =
              [\<lparr>name = ''Cleaning done'', day = num (endDay p)\<rparr>]"
    if "0 < cleaningDays i"
    using that by (simp add: p assms(2) ph ev endDay_groupPlan cleaningRange_groupPlan)
  have zero: "filter (\<lambda>ph. type ph = Cleaning) (phases p) = [] \<and>
            cleaningRange p = None \<and>
            filter (\<lambda>e. name e = ''Cleaning done'') (events p) = [] \<and>
            endDay p = harvestDay p"
    if "cleaningDays i = 0"
    using that by (simp add: p ph ev endDay_groupPlan cleaningRange_groupPlan)
  from h pos zero show ?thesis by blast
qed

theorem harvest_and_cleaning_witness:
  "startDay (buildPlan example_inputs ! 0) = 6 \<and>
   harvestDay (buildPlan example_inputs ! 0) = 16 \<and>
   filter (\<lambda>ph. type ph = Cleaning) (phases (buildPlan example_inputs ! 0)) =
     [\<lparr>PlanPhase.name = ''Cleaning'', PlanPhase.startDay = num 16, PlanPhase.endDay = num 17,
       durationDays = num 2, type = Cleaning\<rparr>] \<and>
   endDay (buildPlan example_inputs ! 0) = 18 \<and>
   filter (\<lambda>e. name e = ''Cleaning done'') (events (buildPlan example_inputs ! 0)) =
     [\<lparr>name = ''Cleaning done'', day = num 18\<rparr>] \<and>
   startDay (buildPlan overrun_inputs ! 0) = 2 \<and>
   harvestDay (buildPlan overrun_inputs ! 0) = 16 \<and>
   endDay (buildPlan overrun_inputs ! 0) = 16 \<and>
   cleaningRange (buildPlan overrun_inputs ! 0) = None \<and>
   filter (\<lambda>ph. type ph = Cleaning) (phases (buildPlan overrun_inputs ! 0)) = []"
proof -
  have m1: "buildPlan example_inputs ! 0 \<in> set (buildPlan example_inputs)"
    by (rule nth_mem) (simp add: length_buildPlan example_inputs_def)
  have m2: "buildPlan overrun_inputs ! 0 \<in> set (buildPlan overrun_inputs)"
    by (rule nth_mem) (simp add: length_buildPlan overrun_inputs_def)
  have "startDay (buildPlan example_inputs ! 0) = 1 + 1 * groupStartOffsetDays example_inputs"
    by (simp add: buildPlan_example startDay_groupPlan)
  then have s1: "startDay (buildPlan example_inputs ! 0) = 6"
    by (simp add: example_inputs_def)
  have "startDay (buildPlan overrun_inputs ! 0) = 1 + 1 * groupStartOffsetDays overrun_inputs"
    by (simp add: buildPlan_overrun startDay_groupPlan)
  then have s2: "startDay (buildPlan overrun_inputs ! 0) = 2"
    by (simp add: overrun_inputs_def)
  have c1: "cleaningDays example_inputs = 2" "anodeDays example_inputs = 10"
    by (simp_all add: example_inputs_def)
  have c2: "cleaningDays overrun_inputs = 0" "anodeDays overrun_inputs = 14"
    by (simp_all add: overrun_inputs_def)
  from harvest_and_cleaning [OF m1 refl] harvest_and_cleaning [OF m2 refl]
  show ?thesis
    by (simp add: s1 s2 c1 c2)
qed

text \<open>
  C4, as amended. For valid inputs with cathode durations \<open>(A, B, C)\<close>, whatever their
  sum, and every returned plan whose last cathode day is a safe integer
  (\<open>startDay + A + B + C \<le> 2^53\<close>): there is exactly one phase of each cathode type;
  cathode-in spans \<open>[startDay, startDay + A - 1]\<close>, cathode-out spans
  \<open>[startDay + A, startDay + A + B - 1]\<close> and cathode-reinserted spans
  \<open>[startDay + A + B, startDay + A + B + C - 1]\<close>, so each starts on the day after the
  one before it ends.
\<close>

theorem cathode_phases_chained:
  assumes "valid_inputs i" and "p \<in> set (buildPlan i)" and "cathodePhases i = (A, B, C)"
    and "startDay p + A + B + C \<le> 2 ^ 53"
  shows "filter (\<lambda>ph. type ph = CathodeIn) (phases p) =
           [\<lparr>PlanPhase.name = ''Kathoden drin'', PlanPhase.startDay = num (startDay p),
             PlanPhase.endDay = num (startDay p + A - 1), durationDays = num A,
             type = CathodeIn\<rparr>] \<and>
         filter (\<lambda>ph. type ph = CathodeOut) (phases p) =
           [\<lparr>PlanPhase.name = ''Kathoden entfernt'', PlanPhase.startDay = num (startDay p + A),
             PlanPhase.endDay = num (startDay p + A + B - 1), durationDays = num B,
             type = CathodeOut\<rparr>] \<and>
         filter (\<lambda>ph. type ph = CathodeReinserted) (phases p) =
           [\<lparr>PlanPhase.name = ''Kathoden wieder eingesetzt'',
             PlanPhase.startDay = num (startDay p + A + B),
             PlanPhase.endDay = num (startDay p + A + B + C - 1), durationDays = num C,
             type = CathodeReinserted\<rparr>]"
proof -
  from assms(2) obtain k where p: "p = groupPlan i (harvestOrder i ! k) k"
    by (auto simp: in_buildPlan)
  from assms(1,3) have v: "0 \<le> A" "0 \<le> B" "0 \<le> C" "0 \<le> groupStartOffsetDays i"
    by (simp_all add: valid_inputs_def)
  from v(4) have "0 \<le> int k * groupStartOffsetDays i" by simp
  then have s: "0 \<le> startDay (groupPlan i (harvestOrder i ! k) k)"
    by (simp add: startDay_groupPlan)
  from assms(4) have b: "startDay (groupPlan i (harvestOrder i ! k) k) + A + B + C \<le> 2 ^ 53"
    by (simp only: p)
  show ?thesis
    unfolding p by (simp add: phases_groupPlan_exact [OF assms(3) refl v(1-3) s b])
qed

text \<open>
  The days of the plan for cathode durations \<open>(2^53, 5, 4)\<close>, summed as doubles.
\<close>

lemma jadd_num_round: "jadd (num x) (num y) = round_rat (of_int (x + y))"
  by (simp add: jadd_def num_def)

lemma jsub_num_round: "jsub (num x) (num y) = round_rat (of_int (x - y))"
  by (simp add: jsub_def jadd_def negate_def num_def)

lemma round_rat_numeral: "round_rat (numeral w) = round_double (numeral w) (Suc 0)"
  by (simp add: round_rat_def)

lemma round_double_huge:
  "round_double 9007199254740993 (Suc 0) = Fin 9007199254740992"
  "round_double 9007199254740997 (Suc 0) = Fin 9007199254740996"
  "round_double 9007199254740995 (Suc 0) = Fin 9007199254740996"
  "round_double 9007199254741000 (Suc 0) = Fin 9007199254741000"
  "round_double 9007199254740999 (Suc 0) = Fin 9007199254741000"
  "round_double 9007199254740991 (Suc 0) = Fin 9007199254740991"
  by (simp_all add: round_double_def floor_log2_def mul2_def bit_length.simps Let_def)

lemma huge_days:
  "jadd (num 1) (num 9007199254740992) = num 9007199254740992"
  "jsub (num 9007199254740992) (num 1) = num 9007199254740991"
  "jadd (num 9007199254740992) (num 5) = num 9007199254740996"
  "jsub (num 9007199254740996) (num 1) = num 9007199254740996"
  "jadd (num 9007199254740996) (num 1) = num 9007199254740996"
  "jadd (num 9007199254740996) (num 4) = num 9007199254741000"
  "jsub (num 9007199254741000) (num 1) = num 9007199254741000"
  by (simp_all only: jadd_num_round jsub_num_round)
     (simp_all add: round_rat_numeral round_double_huge num_def)

lemma valid_huge_cathode_inputs: "valid_inputs huge_cathode_inputs"
  by (simp add: valid_inputs_def huge_cathode_inputs_def)

lemma phases_huge_cathode:
  "phases (hd (buildPlan huge_cathode_inputs)) =
     [\<lparr>PlanPhase.name = ''Anode im Elektrolyt'', PlanPhase.startDay = num 1,
       PlanPhase.endDay = num 14, durationDays = num 14, type = Anode\<rparr>,
      \<lparr>PlanPhase.name = ''Kathoden drin'', PlanPhase.startDay = num 1,
       PlanPhase.endDay = num 9007199254740991, durationDays = num 9007199254740992,
       type = CathodeIn\<rparr>,
      \<lparr>PlanPhase.name = ''Kathoden entfernt'', PlanPhase.startDay = num 9007199254740992,
       PlanPhase.endDay = num 9007199254740996, durationDays = num 5, type = CathodeOut\<rparr>,
      \<lparr>PlanPhase.name = ''Kathoden wieder eingesetzt'',
       PlanPhase.startDay = num 9007199254740996,
       PlanPhase.endDay = num 9007199254741000, durationDays = num 4,
       type = CathodeReinserted\<rparr>]"
proof -
  have c: "cathodePhases huge_cathode_inputs = (9007199254740992, 5, 4)"
    by (simp add: huge_cathode_inputs_def)
  have s: "startDay (groupPlan huge_cathode_inputs 1 0) = 1"
    by (simp add: startDay_groupPlan)
  have a: "anodeDays huge_cathode_inputs = 14" "cleaningDays huge_cathode_inputs = 0"
    by (simp_all add: huge_cathode_inputs_def)
  show ?thesis
    by (simp add: buildPlan_huge_cathode phases_groupPlan [OF c refl refl refl refl refl]
        s a huge_days)
qed

text \<open>
  C4 as stated fails where the sums leave the safe integers: with cathode durations
  \<open>(2^53, 5, 4)\<close>, which the form accepts, and start day 1 the cathode-in phase ends on
  day \<open>2^53 - 1\<close>, not \<open>2^53\<close>; cathode-out starts on day \<open>2^53\<close>, not
  \<open>2^53 + 1\<close>, and ends on day \<open>2^53 + 4\<close>, and cathode-reinserted starts on that
  same day.
\<close>

theorem cathode_phases_chained_counterexample:
  "valid_inputs huge_cathode_inputs \<and>
   hd (buildPlan huge_cathode_inputs) \<in> set (buildPlan huge_cathode_inputs) \<and>
   cathodePhases huge_cathode_inputs = (9007199254740992, 5, 4) \<and>
   startDay (hd (buildPlan huge_cathode_inputs)) = 1 \<and>
   filter (\<lambda>ph. type ph = CathodeIn) (phases (hd (buildPlan huge_cathode_inputs))) =
     [\<lparr>PlanPhase.name = ''Kathoden drin'', PlanPhase.startDay = num 1,
       PlanPhase.endDay = num 9007199254740991, durationDays = num 9007199254740992,
       type = CathodeIn\<rparr>] \<and>
   filter (\<lambda>ph. type ph = CathodeOut) (phases (hd (buildPlan huge_cathode_inputs))) =
     [\<lparr>PlanPhase.name = ''Kathoden entfernt'', PlanPhase.startDay = num 9007199254740992,
       PlanPhase.endDay = num 9007199254740996, durationDays = num 5, type = CathodeOut\<rparr>] \<and>
   filter (\<lambda>ph. type ph = CathodeReinserted) (phases (hd (buildPlan huge_cathode_inputs))) =
     [\<lparr>PlanPhase.name = ''Kathoden wieder eingesetzt'',
       PlanPhase.startDay = num 9007199254740996,
       PlanPhase.endDay = num 9007199254741000, durationDays = num 4,
       type = CathodeReinserted\<rparr>] \<and>
   num 9007199254740991 \<noteq> num (1 + 9007199254740992 - 1) \<and>
   num 9007199254740992 \<noteq> num (1 + 9007199254740992) \<and>
   num 9007199254740996 \<noteq> num (1 + 9007199254740992 + 5 - 1) \<and>
   num 9007199254740996 \<noteq> num (1 + 9007199254740992 + 5)"
proof -
  have "startDay (hd (buildPlan huge_cathode_inputs)) = 1"
    by (simp add: buildPlan_huge_cathode startDay_groupPlan)
  moreover have "cathodePhases huge_cathode_inputs = (9007199254740992, 5, 4)"
    by (simp add: huge_cathode_inputs_def)
  moreover have "hd (buildPlan huge_cathode_inputs) \<in> set (buildPlan huge_cathode_inputs)"
    by (simp add: buildPlan_huge_cathode)
  ultimately show ?thesis
    by (simp add: valid_huge_cathode_inputs phases_huge_cathode num_eq_iff)
qed

theorem cathode_phases_chained_witness:
  "cathodePhases overrun_inputs = (5, 5, 5) \<and> anodeDays overrun_inputs = 14 \<and>
   startDay (buildPlan overrun_inputs ! 0) = 2 \<and>
   filter (\<lambda>ph. type ph = CathodeIn) (phases (buildPlan overrun_inputs ! 0)) =
     [\<lparr>PlanPhase.name = ''Kathoden drin'', PlanPhase.startDay = num 2,
       PlanPhase.endDay = num 6, durationDays = num 5, type = CathodeIn\<rparr>] \<and>
   filter (\<lambda>ph. type ph = CathodeOut) (phases (buildPlan overrun_inputs ! 0)) =
     [\<lparr>PlanPhase.name = ''Kathoden entfernt'', PlanPhase.startDay = num 7,
       PlanPhase.endDay = num 11, durationDays = num 5, type = CathodeOut\<rparr>] \<and>
   filter (\<lambda>ph. type ph = CathodeReinserted) (phases (buildPlan overrun_inputs ! 0)) =
     [\<lparr>PlanPhase.name = ''Kathoden wieder eingesetzt'', PlanPhase.startDay = num 12,
       PlanPhase.endDay = num 16, durationDays = num 5, type = CathodeReinserted\<rparr>]"
proof -
  have v: "valid_inputs overrun_inputs"
    by (auto simp: valid_inputs_def overrun_inputs_def)
  have m: "buildPlan overrun_inputs ! 0 \<in> set (buildPlan overrun_inputs)"
    by (rule nth_mem) (simp add: length_buildPlan overrun_inputs_def)
  have c: "cathodePhases overrun_inputs = (5, 5, 5)"
    by (simp add: overrun_inputs_def)
  have a: "anodeDays overrun_inputs = 14"
    by (simp add: overrun_inputs_def)
  have "startDay (buildPlan overrun_inputs ! 0) = 1 + 1 * groupStartOffsetDays overrun_inputs"
    by (simp add: buildPlan_overrun startDay_groupPlan)
  then have s: "startDay (buildPlan overrun_inputs ! 0) = 2"
    by (simp add: overrun_inputs_def)
  have b: "startDay (buildPlan overrun_inputs ! 0) + 5 + 5 + 5 \<le> 2 ^ 53"
    by (simp add: s)
  from cathode_phases_chained [OF v m c b] show ?thesis
    by (simp add: s c a)
qed







section \<open>Evaluating the conversions\<close>

text \<open>
  Rewrite rules that run the definitions on concrete strings: first the rounding of the
  few values that occur, then \<open>Number\<close> on single tokens, then whole order strings.
\<close>

lemmas round_eval = round_double_def floor_log2_def mul2_def bit_length.simps Let_def

lemma round_double_small:
  "round_double (Suc 0) (Suc 0) = Fin 1"
  "round_double (Suc (Suc 0)) (Suc 0) = Fin 2"
  "round_double 3 (Suc 0) = Fin 3"
  "round_double 20 10 = Fin 2"
  by (simp_all add: round_eval)

lemmas number_eval =
  trim_def is_white_def is_digit_def hex_digit_def digits_def non_decimal_def
  exponent_part_def unsigned_decimal_def unsigned_number_def js_Number_def negate_def
  utf16_def Let_def

lemma number_tokens:
  "js_Number [] = Fin 0"
  "js_Number [49] = Fin 1"
  "js_Number [50] = Fin 2"
  "js_Number [51] = Fin 3"
  "js_Number [120] = NaN"
  "js_Number [50, 46, 48] = Fin 2"
  "js_Number [48, 120, 50] = Fin 2"
  "js_Number [49, 101, 48] = Fin 1"
  by (simp_all add: number_eval round_double_small)

lemmas kept_eval =
  kept_numbers_def utf16_def is_sep_def is_white_def number_tokens
  isInteger_def gt_zero_def int_of_num_def


section \<open>Properties of \<open>parseHarvestOrder\<close>\<close>

lemma set_set_from: "set (set_from seen xs) = set seen \<union> set xs"
  by (induction xs arbitrary: seen) auto

lemma distinct_set_from: "distinct seen \<Longrightarrow> distinct (set_from seen xs)"
  by (induction xs arbitrary: seen) auto

lemma set_from_distinct: "distinct (seen @ xs) \<Longrightarrow> set_from seen xs = seen @ xs"
  by (induction xs arbitrary: seen) auto

lemma every_succ_index_iff:
  "every_succ_index i xs \<longleftrightarrow> xs = [int i + 1..int i + int (length xs)]"
proof (induction xs arbitrary: i)
  case Nil
  then show ?case by simp
next
  case (Cons n ns)
  have "[int i + 1..int i + int (length (n # ns))] =
        (int i + 1) # [int (Suc i) + 1..int (Suc i) + int (length ns)]"
    by (subst upto_rec1) (simp_all add: add.commute add.left_commute)
  with Cons show ?case by auto
qed

lemma isPermutation_iff:
  assumes "int (length ks) = gc"
  shows "isPermutation ks gc \<longleftrightarrow> distinct ks \<and> set ks = {1..gc}"
proof
  let ?u = "set_from [] ks"
  have du: "distinct ?u" by (simp add: distinct_set_from)
  have su: "set ?u = set ks" by (simp add: set_set_from)
  assume p: "isPermutation ks gc"
  then have len: "int (length ?u) = gc"
    and idx: "every_succ_index 0 (sort ?u)"
    by (simp_all add: isPermutation_def Let_def)
  from du su have "card (set ks) = length ?u"
    by (metis distinct_card)
  with len assms have "card (set ks) = length ks" by simp
  then have d: "distinct ks" by (rule card_distinct)
  from idx have "sort ?u = [1..int (length ?u)]"
    by (simp add: every_succ_index_iff)
  then have "set (sort ?u) = {1..gc}"
    using len by simp
  with su have "set ks = {1..gc}" by simp
  with d show "distinct ks \<and> set ks = {1..gc}" ..
next
  assume a: "distinct ks \<and> set ks = {1..gc}"
  then have u: "set_from [] ks = ks"
    by (simp add: set_from_distinct)
  have "sort ks = [1..gc]"
    by (rule sorted_distinct_set_unique) (use a in simp_all)
  then have "every_succ_index 0 (sort ks)"
    using assms by (simp add: every_succ_index_iff)
  with a assms show "isPermutation ks gc"
    by (auto simp: isPermutation_def u list_all_iff)
qed

lemma kept_numbers_empty: "kept_numbers [] = []"
  by (simp add: kept_eval)




lemma parseHarvestOrder_cases:
  "parseHarvestOrder v gc =
     (if int (length (kept_numbers v)) = gc \<and> distinct (kept_numbers v) \<and>
         set (kept_numbers v) = {1..gc}
      then kept_numbers v else [])"
proof (cases "v = []")
  case True
  then show ?thesis
    by (auto simp: parseHarvestOrder_def kept_numbers_empty)
next
  case False
  then show ?thesis
    by (auto simp: parseHarvestOrder_def Let_def isPermutation_iff)
qed


lemma kept_x: "kept_numbers (utf16 ''x'') = []"
  by (simp add: kept_eval)

lemma kept_312: "kept_numbers (utf16 ''3 1 2'') = [3, 1, 2]"
  by (simp add: kept_eval)

lemma kept_112: "kept_numbers (utf16 ''1, 1, 2'') = [1, 1, 2]"
  by (simp add: kept_eval)


lemma kept_12: "kept_numbers (utf16 ''1 2'') = [1, 2]"
  by (simp add: kept_eval)


text \<open>
  C6, as amended. \<open>parseHarvestOrder\<close> returns the empty list exactly when
  \<open>groupCount = 0\<close>, or the kept tokens are not \<open>groupCount\<close> many, or repeat a
  value, or hold a value outside \<open>1..groupCount\<close>, or miss a value of
  \<open>1..groupCount\<close>. When the kept tokens are a permutation of \<open>1..groupCount\<close> the
  result is the list of kept tokens itself, in the order written.
\<close>

theorem parseHarvestOrder_empty_iff:
  "(parseHarvestOrder v gc = [] \<longleftrightarrow>
      gc = 0 \<or>
      int (length (kept_numbers v)) \<noteq> gc \<or>
      \<not> distinct (kept_numbers v) \<or>
      (\<exists>n \<in> set (kept_numbers v). n < 1 \<or> gc < n) \<or>
      (\<exists>k \<in> {1..gc}. k \<notin> set (kept_numbers v))) \<and>
   (int (length (kept_numbers v)) = gc \<and> distinct (kept_numbers v) \<and>
    set (kept_numbers v) = {1..gc} \<longrightarrow>
      parseHarvestOrder v gc = kept_numbers v)"
proof -
  define ks where "ks = kept_numbers v"
  define bad where "bad \<longleftrightarrow>
      (\<exists>n \<in> set ks. n < 1 \<or> gc < n) \<or> (\<exists>k \<in> {1..gc}. k \<notin> set ks)"
  have range: "set ks = {1..gc} \<longleftrightarrow> \<not> bad"
    unfolding bad_def by auto
  have res: "parseHarvestOrder v gc =
      (if int (length ks) = gc \<and> distinct ks \<and> \<not> bad then ks else [])"
    unfolding ks_def range [unfolded ks_def, symmetric] by (rule parseHarvestOrder_cases)
  have first: "parseHarvestOrder v gc = [] \<longleftrightarrow>
      gc = 0 \<or> int (length ks) \<noteq> gc \<or> \<not> distinct ks \<or> bad"
  proof (cases "int (length ks) = gc \<and> distinct ks \<and> \<not> bad")
    case True
    then have "ks = [] \<longleftrightarrow> gc = 0" by auto
    with True show ?thesis by (simp add: res)
  next
    case False
    then show ?thesis by (auto simp: res)
  qed
  have second: "int (length ks) = gc \<and> distinct ks \<and> set ks = {1..gc} \<longrightarrow>
      parseHarvestOrder v gc = ks"
    by (simp add: res range)
  from first second show ?thesis
    unfolding bad_def ks_def by blast
qed

theorem parseHarvestOrder_empty_iff_witness:
  "parseHarvestOrder (utf16 ''3 1 2'') 3 = [3, 1, 2] \<and>
   parseHarvestOrder (utf16 ''1, 1, 2'') 3 = []"
proof -
  have s: "{3, 1, 2} = {1..3::int}" by auto
  from parseHarvestOrder_empty_iff [of "utf16 ''3 1 2''" 3]
  have a: "parseHarvestOrder (utf16 ''3 1 2'') 3 = [3, 1, 2]"
    by (simp add: kept_312 s)
  from parseHarvestOrder_empty_iff [of "utf16 ''1, 1, 2''" 3]
  have b: "parseHarvestOrder (utf16 ''1, 1, 2'') 3 = []"
    by (simp add: kept_112)
  from a b show ?thesis ..
qed

text \<open>
  C6 as stated fails at \<open>groupCount = 0\<close>: for the string \<open>x\<close> the result is empty
  although the kept tokens (none) have the right count, no repeated value, no value out of
  range and leave no gap.
\<close>

theorem parseHarvestOrder_empty_iff_counterexample:
  "parseHarvestOrder (utf16 ''x'') 0 = [] \<and>
   int (length (kept_numbers (utf16 ''x''))) = 0 \<and>
   distinct (kept_numbers (utf16 ''x'')) \<and>
   set (kept_numbers (utf16 ''x'')) \<subseteq> {1..0} \<and>
   {1..0} \<subseteq> set (kept_numbers (utf16 ''x''))"
  by (simp add: parseHarvestOrder_cases kept_x)




text \<open>
  C9. Tokens that are not plain decimal integers are kept when \<open>Number\<close> maps them to
  a positive integer: \<open>2.0\<close> and \<open>0x2\<close> are 2 and \<open>1e0\<close> is 1, and the order
  strings \<open>1, 2.0\<close>, \<open>1, 0x2\<close> and \<open>1e0, 2\<close> parse to \<open>[1, 2]\<close> for two
  groups.
\<close>

theorem number_conversion_tokens:
  "js_Number (utf16 ''2.0'') = Fin 2 \<and>
   js_Number (utf16 ''0x2'') = Fin 2 \<and>
   js_Number (utf16 ''1e0'') = Fin 1 \<and>
   kept_numbers (utf16 ''1, 2.0'') = [1, 2] \<and>
   parseHarvestOrder (utf16 ''1, 2.0'') 2 = [1, 2] \<and>
   parseHarvestOrder (utf16 ''1, 0x2'') 2 = [1, 2] \<and>
   parseHarvestOrder (utf16 ''1e0, 2'') 2 = [1, 2]"
proof -
  have s: "{1, 2} = {1..2::int}" by auto
  have n: "js_Number (utf16 ''2.0'') = Fin 2" "js_Number (utf16 ''0x2'') = Fin 2"
    "js_Number (utf16 ''1e0'') = Fin 1"
    by (simp_all add: utf16_def number_tokens)
  have k: "kept_numbers (utf16 ''1, 2.0'') = [1, 2]" "kept_numbers (utf16 ''1, 0x2'') = [1, 2]"
    "kept_numbers (utf16 ''1e0, 2'') = [1, 2]"
    by (simp_all add: kept_eval)
  from n k show ?thesis
    by (simp add: parseHarvestOrder_cases s)
qed

text \<open>
  C10. For \<open>groupCount \<le> 0\<close> the result is empty for every string. For the string
  \<open>x\<close> and \<open>groupCount = 0\<close> no token is kept, the count check and
  \<open>isPermutation\<close> both pass, and the returned list of kept tokens is empty: the same
  value as the failure of \<open>1 2\<close> at \<open>groupCount = 0\<close>.
\<close>

theorem parseHarvestOrder_no_groups:
  "(gc \<le> 0 \<longrightarrow> parseHarvestOrder v gc = []) \<and>
   kept_numbers (utf16 ''x'') = [] \<and>
   int (length (kept_numbers (utf16 ''x''))) = 0 \<and>
   isPermutation (kept_numbers (utf16 ''x'')) 0 \<and>
   parseHarvestOrder (utf16 ''x'') 0 = kept_numbers (utf16 ''x'') \<and>
   parseHarvestOrder (utf16 ''x'') 0 = [] \<and>
   parseHarvestOrder (utf16 ''1 2'') 0 = []"
proof -
  have a: "gc \<le> 0 \<longrightarrow> parseHarvestOrder v gc = []"
    by (auto simp: parseHarvestOrder_cases)
  have b: "isPermutation (kept_numbers (utf16 ''x'')) 0"
    by (simp add: kept_x isPermutation_def)
  have c: "parseHarvestOrder (utf16 ''x'') 0 = []" "parseHarvestOrder (utf16 ''1 2'') 0 = []"
    by (simp_all add: parseHarvestOrder_cases kept_x kept_12)
  from a b c show ?thesis
    by (simp add: kept_x)
qed

theorem parseHarvestOrder_no_groups_witness:
  "parseHarvestOrder (utf16 ''3 1 2'') (- 1) = [] \<and> parseHarvestOrder (utf16 ''3 1 2'') 0 = []"
  using parseHarvestOrder_no_groups [of "- 1" "utf16 ''3 1 2''"]
    parseHarvestOrder_no_groups [of 0 "utf16 ''3 1 2''"]
  by simp


section \<open>Properties of \<open>validateForm\<close> and \<open>generatePlan\<close>\<close>

lemma findings_errors:
  "(\<forall>m \<in> set (findings f). severity m \<noteq> Error) \<longleftrightarrow>
     \<not> form_invalid f \<and> parsedOrder f \<noteq> []"
  by (auto simp: findings_def)


lemma validateForm_result:
  "fst (validateForm c showErrors) \<longleftrightarrow> (\<forall>m \<in> set (findings (form c)). severity m \<noteq> Error)"
  by (simp add: validateForm_def Let_def filter_empty_conv)




lemma generatePlan_failed:
  assumes "\<not> fst (validateForm c True)"
  shows "plan (generatePlan c) = []"
proof -
  let ?c0 = "c\<lparr>messages := []\<rparr>"
  from assms have "\<not> fst (validateForm ?c0 True)"
    by (simp add: validateForm_result)
  then obtain c1 where v: "validateForm ?c0 True = (False, c1)"
    by (cases "validateForm ?c0 True") simp
  show ?thesis
    by (simp add: generatePlan_def v)
qed

lemma parseHarvestOrder_permutation:
  assumes "parseHarvestOrder v g \<noteq> []"
  shows "distinct (parseHarvestOrder v g) \<and> set (parseHarvestOrder v g) = {1..g}"
proof (cases "int (length (kept_numbers v)) = g \<and> distinct (kept_numbers v) \<and>
    set (kept_numbers v) = {1..g}")
  case True
  then have "parseHarvestOrder v g = kept_numbers v"
    by (subst parseHarvestOrder_cases) (rule if_P)
  with True show ?thesis by simp
next
  case False
  then have "parseHarvestOrder v g = []"
    by (subst parseHarvestOrder_cases) (rule if_not_P)
  with assms show ?thesis by simp
qed

lemma parsedOrder_permutation:
  assumes "parsedOrder f \<noteq> []"
  shows "\<exists>g. FormValue.groupCount f = Some g \<and> distinct (parsedOrder f) \<and>
             set (parsedOrder f) = {1..g}"
proof (cases "FormValue.groupCount f")
  case None
  with assms show ?thesis by (simp add: parsedOrder_def)
next
  case (Some g)
  then have p: "parsedOrder f = parseHarvestOrder (FormValue.harvestOrder f) g"
    by (simp add: parsedOrder_def)
  with assms have "parseHarvestOrder (FormValue.harvestOrder f) g \<noteq> []" by simp
  from parseHarvestOrder_permutation [OF this] Some p show ?thesis by simp
qed

lemma required_vmin: "required v \<Longrightarrow> vmin m v \<Longrightarrow> m \<le> or_zero v"
  by (cases v) (simp_all add: required_def vmin_def or_zero_def)

lemma formInputs_valid:
  assumes "fst (validateForm c showErrors)"
  shows "valid_inputs (formInputs (form c))"
proof -
  let ?f = "form c"
  from assms have inv: "\<not> form_invalid ?f" and ord: "parsedOrder ?f \<noteq> []"
    by (simp_all add: validateForm_result findings_errors)
  from parsedOrder_permutation [OF ord] obtain g where
    g: "FormValue.groupCount ?f = Some g" and d: "distinct (parsedOrder ?f)"
    and s: "set (parsedOrder ?f) = {1..g}"
    by blast
  from inv have
    "1 \<le> or_zero (FormValue.groupCount ?f)" "1 \<le> or_zero (FormValue.anodeDays ?f)"
    "0 \<le> or_zero (cathodeA ?f)" "0 \<le> or_zero (cathodeB ?f)" "0 \<le> or_zero (cathodeC ?f)"
    "0 \<le> or_zero (FormValue.cleaningDays ?f)"
    "0 \<le> or_zero (FormValue.groupStartOffsetDays ?f)"
    by (simp_all add: form_invalid_def required_vmin)
  moreover have "or_zero (FormValue.groupCount ?f) = g"
    by (simp add: g or_zero_def)
  ultimately show ?thesis
    using d s by (simp add: valid_inputs_def formInputs_def)
qed


subsection \<open>The cathode sum as a double\<close>





















end
